theory Spec2Isabelle
  imports Main "HOL-Library.AList" "HOL-Library.Word"
begin

section \<open>Repository traffic statistics: the reconcilers of \<open>repostats.py\<close>\<close>

text \<open>
  The class \<open>RepoStats\<close> fetches daily view and clone counts and the top referrers and
  paths of a repository, and merges each fetch into a table kept in a CSV file. This theory
  embeds the pure part of that class: \<open>_get_counts\<close>, \<open>_create_snapshot_dataframe\<close>,
  \<open>_merge_dict\<close>, \<open>_create_cumulative_dataframe\<close> and \<open>_create_referral_dataframe\<close>.
  Isabelle names cannot start with an underscore, so the leading underscore of the Python
  names is dropped. The HTTP request, the clock and the files are inputs of the functions:
  the parsed JSON, the current time, and the parsed content of the file (or nothing, when
  reading it raises).
\<close>

subsection \<open>Daily counts\<close>

text \<open>
  A row of a time series is the inner dictionary
  \<open>{total_<metric>: int, unique_<metric>: int}\<close>. Python integers are unbounded.
\<close>

record counts =
  total :: int
  unique :: int

text \<open>
  A Python \<open>dict\<close> keeps its keys in insertion order, so a dictionary is an association
  list: \<open>map_of d k\<close> is the lookup, \<open>AList.update k v d\<close> is \<open>d[k] = v\<close> (the
  value is replaced in place when the key is there, and the pair is appended otherwise).
\<close>

type_synonym 'k dict = "('k \<times> counts) list"

subsection \<open>\<open>_merge_dict\<close>\<close>

text \<open>
  The body of the loop \<open>for key in new_data\<close>. The key comes from \<open>new_data\<close>, so
  the lookup \<open>new_data[key]\<close> cannot fail; the model returns \<open>old_data\<close> unchanged in
  that unreachable case.
\<close>

definition merge_step :: "'k dict \<Rightarrow> 'k \<Rightarrow> 'k dict \<Rightarrow> 'k dict" where
  "merge_step new_data key old_data =
     (case map_of new_data key of
        None \<Rightarrow> old_data
      | Some nv \<Rightarrow>
          (case map_of old_data key of
             None \<Rightarrow> AList.update key nv old_data
           | Some ov \<Rightarrow>
               if total nv > total ov \<or> unique nv > unique ov
               then AList.update key nv old_data
               else old_data))"

definition merge_dict :: "'k dict \<Rightarrow> 'k dict \<Rightarrow> 'k dict" where
  "merge_dict old_data new_data = fold (merge_step new_data) (map fst new_data) old_data"

subsection \<open>Dates and dictionary keys\<close>

text \<open>
  A calendar date is its day number, an \<open>int\<close>; an instant is a number of seconds since
  the epoch, and its UTC calendar date is the floor of the division by 86400.

  The dictionaries of the time-series path have keys of two Python types.
  \<open>_get_counts\<close> builds its keys with \<open>.date()\<close>: they are \<open>datetime.date\<close> objects.
  \<open>_create_cumulative_dataframe\<close> reads the old table with
  \<open>read_csv(..., parse_dates=["_date"]).to_dict(orient="index")\<close>: its keys are pandas
  \<open>Timestamp\<close> objects, a subclass of \<open>datetime.datetime\<close>. In Python a \<open>date\<close> and a
  \<open>datetime\<close> are never equal and hash differently, so as dictionary keys they are
  different even for the same calendar day. The type of keys keeps the two apart;
  \<open>pd.to_datetime\<close> maps both to the day. The persisted table holds one row per day at
  midnight, so a \<open>Timestamp\<close> is modelled by its day.
\<close>

datatype key = Timestamp int | Date int

fun to_datetime :: "key \<Rightarrow> int" where
  "to_datetime (Timestamp d) = d"
| "to_datetime (Date d) = d"

definition utc_date :: "int \<Rightarrow> int" where
  "utc_date t = t div 86400"

text \<open>An item of the list \<open>data[metric_type]\<close> of the views or clones response.\<close>

record event =
  timestamp :: int
  count :: int
  uniques :: int

text \<open>A table indexed by date: the rows of a data frame or of the CSV file, in order.\<close>

type_synonym table = "(int \<times> counts) list"

datatype py_error = ValueError | TypeError

subsection \<open>\<open>_get_counts\<close>\<close>

text \<open>
  The body of the first loop: the key is created with zero counts when it is missing, then
  both fields of its row are increased in place.
\<close>

definition add_item :: "event \<Rightarrow> key dict \<Rightarrow> key dict" where
  "add_item item counts =
     (let date = Date (utc_date (timestamp item));
          counts1 = (if map_of counts date = None
                     then AList.update date \<lparr>total = 0, unique = 0\<rparr> counts
                     else counts);
          counts2 = AList.map_entry date (\<lambda>r. r\<lparr>total := total r + event.count item\<rparr>) counts1
      in AList.map_entry date (\<lambda>r. r\<lparr>unique := unique r + event.uniques item\<rparr>) counts2)"

text \<open>The body of the second loop, over the dates of the last 14 days.\<close>

definition fill_date :: "int \<Rightarrow> key dict \<Rightarrow> key dict" where
  "fill_date d counts =
     (if map_of counts (Date d) = None
      then AList.update (Date d) \<lparr>total = 0, unique = 0\<rparr> counts
      else counts)"

text \<open>
  \<open>now\<close> is the clock, in seconds. \<open>end_date\<close> is \<open>Timestamp.now(tz='UTC').floor('D')\<close>
  and \<open>date_range(start, end, freq='D')\<close> is the list of days from \<open>start_date\<close> to
  \<open>end_date\<close>, both included.
\<close>

definition get_counts :: "event list \<Rightarrow> int \<Rightarrow> key dict" where
  "get_counts data now =
     (let counts = fold add_item data [];
          end_date = utc_date now;
          start_date = end_date - 13
      in fold fill_date [start_date..end_date] counts)"

subsection \<open>\<open>_create_snapshot_dataframe\<close>\<close>

text \<open>
  \<open>DataFrame.from_dict(data, orient="index")\<close> has one row per key, and
  \<open>pd.to_datetime\<close> turns the index into dates. \<open>sort_index\<close> sorts the rows by date.
  \<open>last('14D')\<close> keeps, of a frame sorted by date, the rows whose date is later than the
  last date minus 14 days (pandas: \<open>searchsorted(index[-1] - offset, side="right")\<close>, then
  \<open>iloc[start:]\<close>), and returns an empty frame as it is.
\<close>

definition from_dict :: "key dict \<Rightarrow> table" where
  "from_dict data = map (\<lambda>(k, r). (to_datetime k, r)) data"

definition sort_index :: "table \<Rightarrow> table" where
  "sort_index df = sort_key fst df"

definition last_14D :: "table \<Rightarrow> table" where
  "last_14D df = (if df = [] then df else dropWhile (\<lambda>(d, r). d \<le> fst (last df) - 14) df)"

definition create_snapshot_dataframe :: "key dict \<Rightarrow> table" where
  "create_snapshot_dataframe data = last_14D (sort_index (from_dict data))"

subsection \<open>\<open>_create_cumulative_dataframe\<close>\<close>

text \<open>
  The file is \<open>None\<close> when \<open>read_csv\<close> raises (no file, or one that does not parse), and
  the rows of the table otherwise. \<open>to_dict(orient="index")\<close> raises on an index with a
  repeated date; every exception of the \<open>try\<close> block leads to the \<open>except\<close> branch.
\<close>

definition to_dict :: "table \<Rightarrow> key dict option" where
  "to_dict csv =
     (if distinct (map fst csv) then Some (map (\<lambda>(d, r). (Timestamp d, r)) csv) else None)"

text \<open>
  A frame indexed by timestamps: the time zone of its index (\<open>None\<close> for a naive index)
  and its rows. The rows of the index are days, all at midnight.
\<close>

datatype tzinfo = UTC

record dated_frame =
  tz :: "tzinfo option"
  table_rows :: table

text \<open>
  \<open>DataFrame.from_dict(..., orient="index")\<close> followed by line 148,
  \<open>pd.to_datetime(dataframe.index, utc=True)\<close>: every key becomes a timestamp in UTC, a
  \<open>date\<close> as its midnight and a naive \<open>Timestamp\<close> as it is.
\<close>

definition to_datetime_utc :: "key dict \<Rightarrow> dated_frame" where
  "to_datetime_utc updated_dict = \<lparr>tz = Some UTC, table_rows = from_dict updated_dict\<rparr>"

text \<open>
  The columns of the frame are arrays of a fixed type, which pandas infers from the values
  of the whole column: \<open>int64\<close> when every value fits, \<open>uint64\<close> when none is negative
  and every value fits, and Python objects otherwise. The sum of an \<open>int64\<close> or
  \<open>uint64\<close> column wraps around; the sum of Python integers does not.
\<close>

datatype dtype = Int64 | UInt64 | Object

definition is_int64 :: "int \<Rightarrow> bool" where
  "is_int64 x \<longleftrightarrow> - (2 ^ 63) \<le> x \<and> x < 2 ^ 63"

definition is_uint64 :: "int \<Rightarrow> bool" where
  "is_uint64 x \<longleftrightarrow> 0 \<le> x \<and> x < 2 ^ 64"

definition column_dtype :: "int list \<Rightarrow> dtype" where
  "column_dtype xs =
     (if list_all is_int64 xs then Int64
      else if list_all is_uint64 xs then UInt64
      else Object)"

definition column_sum :: "dtype \<Rightarrow> int list \<Rightarrow> int" where
  "column_sum t xs =
     (case t of
        Int64 \<Rightarrow> (sum_list xs + 2 ^ 63) mod 2 ^ 64 - 2 ^ 63
      | UInt64 \<Rightarrow> sum_list xs mod 2 ^ 64
      | Object \<Rightarrow> sum_list xs)"

text \<open>\<open>groupby(index).sum()\<close>: one row per date, in ascending order, the fields summed.\<close>

definition rows_at :: "table \<Rightarrow> int \<Rightarrow> counts list" where
  "rows_at df d = map snd (filter (\<lambda>(d', r). d' = d) df)"

definition groupby_sum :: "table \<Rightarrow> table" where
  "groupby_sum df =
     (let total_dtype = column_dtype (map (\<lambda>(d, r). total r) df);
          unique_dtype = column_dtype (map (\<lambda>(d, r). unique r) df)
      in map (\<lambda>d. (d, \<lparr>total = column_sum total_dtype (map total (rows_at df d)),
                        unique = column_sum unique_dtype (map unique (rows_at df d))\<rparr>))
           (sort (remdups (map fst df))))"

definition date_range :: "int \<Rightarrow> int \<Rightarrow> int list" where
  "date_range start_date end_date = [start_date..end_date]"

text \<open>\<open>reindex(date_range, fill_value=0)\<close> on a frame without repeated dates.\<close>

definition reindex :: "table \<Rightarrow> int list \<Rightarrow> table" where
  "reindex df idx =
     map (\<lambda>d. (d, case map_of df d of Some r \<Rightarrow> r | None \<Rightarrow> \<lparr>total = 0, unique = 0\<rparr>)) idx"

text \<open>
  Line 160, \<open>index.tz_convert(None)\<close>: the index of a frame with a time zone becomes naive,
  with the wall time of UTC; on a naive index \<open>tz_convert\<close> raises.
\<close>

definition tz_convert_None :: "dated_frame \<Rightarrow> py_error + dated_frame" where
  "tz_convert_None df =
     (case tz df of None \<Rightarrow> Inl TypeError | Some z \<Rightarrow> Inr (df\<lparr>tz := None\<rparr>))"

text \<open>
  Lines 147 to 163, which run after either branch: the index to timestamps in UTC, the rows
  grouped by date and summed, the frame reindexed over every day from the first to the last
  date, and the index made naive. On an empty frame \<open>index.min()\<close> is \<open>NaT\<close> and
  \<open>date_range\<close> raises. The range of dates and the reindexed frame keep the time zone of
  the index.
\<close>

definition densify :: "key dict \<Rightarrow> py_error + dated_frame" where
  "densify updated_dict =
     (let dataframe = to_datetime_utc updated_dict;
          grouped = groupby_sum (table_rows dataframe)
      in if grouped = [] then Inl ValueError
         else tz_convert_None
                (dataframe\<lparr>table_rows :=
                   reindex grouped
                     (date_range (Min (set (map fst grouped))) (Max (set (map fst grouped))))\<rparr>))"

text \<open>
  The table returned is the one the caller writes to the file; the file of the next run
  holds its rows.
\<close>

definition create_cumulative_dataframe ::
  "key dict \<Rightarrow> table option \<Rightarrow> py_error + dated_frame" where
  "create_cumulative_dataframe data file =
     (case (case file of None \<Rightarrow> None | Some csv \<Rightarrow> to_dict csv) of
        Some old_data \<Rightarrow> densify (merge_dict old_data data)
      | None \<Rightarrow> densify data)"

subsection \<open>Ranked lists: data frames of referrers and paths\<close>

text \<open>
  A row of a ranked frame has a cell for each of the columns \<open>referrer\<close>, \<open>path\<close>,
  \<open>title\<close>, \<open>count\<close> and \<open>uniques\<close>; \<open>None\<close> is a missing value (\<open>NaN\<close>), which
  is also what a row holds under a column that its frame does not have. The items of the
  JSON response are rows as well. A frame is the list of its column names and its rows.
\<close>

record entry =
  referrer :: "string option"
  path :: "string option"
  title :: "string option"
  count :: "int option"
  uniques :: "int option"

record frame =
  columns :: "string list"
  rows :: "entry list"

definition keep_column :: "string list \<Rightarrow> string \<Rightarrow> 'a option \<Rightarrow> 'a option" where
  "keep_column cols c v = (if c \<in> set cols then v else None)"

definition select_columns :: "string list \<Rightarrow> entry \<Rightarrow> entry" where
  "select_columns cols r =
     \<lparr>referrer = keep_column cols ''referrer'' (referrer r),
      path = keep_column cols ''path'' (path r),
      title = keep_column cols ''title'' (title r),
      count = keep_column cols ''count'' (entry.count r),
      uniques = keep_column cols ''uniques'' (entry.uniques r)\<rparr>"

text \<open>\<open>pd.DataFrame(data, columns=columns)\<close>: the given columns of every item.\<close>

definition DataFrame :: "entry list \<Rightarrow> string list \<Rightarrow> frame" where
  "DataFrame data cols = \<lparr>columns = cols, rows = map (select_columns cols) data\<rparr>"

text \<open>
  \<open>pd.read_csv(file_path, index_col=0)\<close> followed by \<open>reset_index(drop=True)\<close>. The file
  is \<open>None\<close> when it is missing or does not parse, and otherwise the frame that
  \<open>to_csv(file_path, index=False)\<close> wrote: the header with the column names and the
  rows. \<open>index_col=0\<close> makes the first column of the file the index of the frame, and
  \<open>reset_index(drop=True)\<close> discards that index: the frame read has the remaining
  columns only. A file without any column makes \<open>read_csv\<close> raise.

  A missing value is written as an empty cell. \<open>read_csv\<close> reads as a missing value
  every cell that holds one of its default \<open>na_values\<close>, the empty string among them,
  so a string of that list does not come back. Any other cell is taken to come back as it
  was written.
\<close>

definition na_values :: "string list" where
  "na_values =
     ['''', ''#N/A'', ''#N/A N/A'', ''#NA'', ''-1.#IND'', ''-1.#QNAN'', ''-NaN'', ''-nan'',
      ''1.#IND'', ''1.#QNAN'', ''<NA>'', ''N/A'', ''NA'', ''NULL'', ''NaN'', ''None'', ''n/a'',
      ''nan'', ''null'']"

definition read_cell :: "string option \<Rightarrow> string option" where
  "read_cell c =
     (case c of None \<Rightarrow> None | Some s \<Rightarrow> if s \<in> set na_values then None else Some s)"

definition read_row :: "entry \<Rightarrow> entry" where
  "read_row r =
     r\<lparr>referrer := read_cell (referrer r), path := read_cell (path r),
       title := read_cell (title r)\<rparr>"

definition read_csv_index_col0 :: "frame option \<Rightarrow> frame option" where
  "read_csv_index_col0 file =
     (case file of
        None \<Rightarrow> None
      | Some f \<Rightarrow>
          (case columns f of
             [] \<Rightarrow> None
           | c # cs \<Rightarrow>
               Some \<lparr>columns = cs, rows = map (\<lambda>r. read_row (select_columns cs r)) (rows f)\<rparr>))"

text \<open>
  \<open>pd.concat([a, b])\<close>: the rows of \<open>a\<close> then the rows of \<open>b\<close>, under the columns of
  \<open>a\<close> followed by the columns that only \<open>b\<close> has.
\<close>

definition pd_concat :: "frame \<Rightarrow> frame \<Rightarrow> frame" where
  "pd_concat a b =
     \<lparr>columns = columns a @ filter (\<lambda>c. c \<notin> set (columns a)) (columns b),
      rows = rows a @ rows b\<rparr>"

text \<open>
  \<open>drop_duplicates(subset=[column], keep="last")\<close>, the column given by its selector: a
  row is dropped when a later row has the same value in the column. Two missing values count
  as the same value.
\<close>

fun drop_duplicates_last :: "(entry \<Rightarrow> 'a) \<Rightarrow> entry list \<Rightarrow> entry list" where
  "drop_duplicates_last col [] = []"
| "drop_duplicates_last col (r # rs) =
     (if col r \<in> set (map col rs) then drop_duplicates_last col rs
      else r # drop_duplicates_last col rs)"

definition drop_duplicates :: "(entry \<Rightarrow> 'a) \<Rightarrow> frame \<Rightarrow> frame" where
  "drop_duplicates col df = df\<lparr>rows := drop_duplicates_last col (rows df)\<rparr>"

text \<open>
  \<open>sort_values("count", ascending=False)\<close>: the rows with a count in descending order of
  the count, then the rows without a count. pandas sorts the reversed rows in ascending
  order and reverses the result; rows with equal counts keep their order here, where the
  default sort of pandas promises no order.
\<close>

definition count_value :: "entry \<Rightarrow> int" where
  "count_value r = (case entry.count r of Some n \<Rightarrow> n | None \<Rightarrow> 0)"

definition sort_values_count :: "frame \<Rightarrow> frame" where
  "sort_values_count df =
     df\<lparr>rows := rev (sort_key count_value (rev (filter (\<lambda>r. entry.count r \<noteq> None) (rows df))))
                 @ filter (\<lambda>r. entry.count r = None) (rows df)\<rparr>"

subsection \<open>\<open>_create_referral_dataframe\<close>\<close>

text \<open>
  The two tests on \<open>metric_type\<close>: the columns of the new frame and the column whose
  duplicates are dropped.
\<close>

definition ranked_columns :: "string \<Rightarrow> string list" where
  "ranked_columns metric_type =
     (if metric_type = ''referral_sources'' then [''referrer'', ''count'', ''uniques'']
      else [''path'', ''title'', ''count'', ''uniques''])"

definition subset_column :: "string \<Rightarrow> entry \<Rightarrow> string option" where
  "subset_column metric_type = (if metric_type = ''referral_sources'' then referrer else path)"

text \<open>
  The result is the frame returned, which is also the frame written to the file with
  \<open>to_csv(file_path, index=False)\<close>: the file of the next run. When reading the file
  raises, the \<open>except\<close> branch leaves \<open>dataframe\<close> as built from the response.
\<close>

definition create_referral_dataframe :: "entry list \<Rightarrow> string \<Rightarrow> frame option \<Rightarrow> frame" where
  "create_referral_dataframe data metric_type file =
     (let dataframe = DataFrame data (ranked_columns metric_type)
      in case read_csv_index_col0 file of
           Some old_data \<Rightarrow>
             (let combined = drop_duplicates (subset_column metric_type) (pd_concat old_data dataframe)
              in sort_values_count combined)
         | None \<Rightarrow> dataframe)"

subsection \<open>Notions used to state the results\<close>

text \<open>
  The events of a day and the sums of their fields; the row of a key, or zeros when the
  key is missing.
\<close>

definition events_on :: "event list \<Rightarrow> int \<Rightarrow> event list" where
  "events_on data d = filter (\<lambda>item. utc_date (timestamp item) = d) data"

definition day_counts :: "event list \<Rightarrow> int \<Rightarrow> counts" where
  "day_counts data d =
     \<lparr>total = sum_list (map event.count (events_on data d)),
      unique = sum_list (map event.uniques (events_on data d))\<rparr>"

definition entry_or_zero :: "key dict \<Rightarrow> key \<Rightarrow> counts" where
  "entry_or_zero c k = (case map_of c k of None \<Rightarrow> \<lparr>total = 0, unique = 0\<rparr> | Some r \<Rightarrow> r)"

text \<open>The first and the last date of a dictionary, after \<open>pd.to_datetime\<close>.\<close>

definition first_date :: "key dict \<Rightarrow> int" where
  "first_date m = Min (to_datetime ` fst ` set m)"

definition last_date :: "key dict \<Rightarrow> int" where
  "last_date m = Max (to_datetime ` fst ` set m)"

text \<open>
  What one pass of the loop body leaves at its key, as a function of the new and the old
  entry. It is used to state the lemmas only.
\<close>

definition resolve :: "counts option \<Rightarrow> counts option \<Rightarrow> counts option" where
  "resolve n ov =
     (case n of
        None \<Rightarrow> ov
      | Some nv \<Rightarrow>
          (case ov of
             None \<Rightarrow> Some nv
           | Some v \<Rightarrow> if total nv > total v \<or> unique nv > unique v then Some nv else Some v))"

text \<open>The row that \<open>groupby(index).sum()\<close> gives a date of a frame.\<close>

definition group_row :: "table \<Rightarrow> int \<Rightarrow> counts" where
  "group_row df d =
     \<lparr>total = column_sum (column_dtype (map (\<lambda>(d, r). total r) df)) (map total (rows_at df d)),
      unique = column_sum (column_dtype (map (\<lambda>(d, r). unique r) df)) (map unique (rows_at df d))\<rparr>"

subsection \<open>Lemmas on \<open>_merge_dict\<close>\<close>

lemma resolve_None [simp]: "resolve None ov = ov"
  by (simp add: resolve_def)

lemma resolve_Some_None [simp]: "resolve (Some nv) None = Some nv"
  by (simp add: resolve_def)

lemma resolve_Some_Some [simp]:
  "resolve (Some nv) (Some v) =
     (if total nv > total v \<or> unique nv > unique v then Some nv else Some v)"
  by (simp add: resolve_def)

lemma resolve_twice: "resolve n (resolve n ov) = resolve n ov"
proof (cases n)
  case None
  then show ?thesis by simp
next
  case (Some nv)
  then show ?thesis by (cases ov) simp_all
qed

lemma map_of_merge_step:
  "map_of (merge_step new_data key old_data) k =
     (if k = key then resolve (map_of new_data key) (map_of old_data key) else map_of old_data k)"
proof (cases "map_of new_data key")
  case None
  then show ?thesis by (simp add: merge_step_def)
next
  case (Some nv)
  then show ?thesis
    by (cases "map_of old_data key") (simp_all add: merge_step_def update_conv')
qed

lemma map_of_fold_merge_step_other:
  "k \<notin> set ks \<Longrightarrow> map_of (fold (merge_step new_data) ks old_data) k = map_of old_data k"
  by (induction ks arbitrary: old_data) (simp_all add: map_of_merge_step)

lemma map_of_fold_merge_step_mem:
  "k \<in> set ks \<Longrightarrow>
   map_of (fold (merge_step new_data) ks old_data) k = resolve (map_of new_data k) (map_of old_data k)"
proof (induction ks arbitrary: old_data)
  case Nil
  then show ?case by simp
next
  case (Cons j ks)
  show ?case
  proof (cases "k \<in> set ks")
    case True
    have "map_of (fold (merge_step new_data) (j # ks) old_data) k =
          resolve (map_of new_data k) (map_of (merge_step new_data j old_data) k)"
      using Cons.IH [OF True] by simp
    also have "\<dots> = resolve (map_of new_data k) (map_of old_data k)"
      by (simp add: map_of_merge_step resolve_twice)
    finally show ?thesis .
  next
    case False
    with Cons.prems have "j = k" by simp
    with False show ?thesis
      by (simp add: map_of_fold_merge_step_other map_of_merge_step)
  qed
qed

text \<open>The merged dictionary, read key by key.\<close>

lemma map_of_merge_dict:
  "map_of (merge_dict old_data new_data) k = resolve (map_of new_data k) (map_of old_data k)"
proof (cases "k \<in> set (map fst new_data)")
  case True
  then show ?thesis
    by (simp only: merge_dict_def map_of_fold_merge_step_mem)
next
  case False
  then have "map_of new_data k = None"
    by (simp add: map_of_eq_None_iff)
  then show ?thesis
    using False by (simp add: merge_dict_def map_of_fold_merge_step_other)
qed

text \<open>
  On its own dictionaries \<open>_merge_dict\<close> is idempotent: merging the same new
  dictionary a second time leaves every entry as it is.
\<close>

lemma map_of_merge_dict_twice:
  "map_of (merge_dict (merge_dict old_data new_data) new_data) k =
   map_of (merge_dict old_data new_data) k"
  by (simp add: map_of_merge_dict resolve_twice)

subsection \<open>Lemmas on \<open>_get_counts\<close> and the snapshot\<close>

lemma map_of_add_item:
  "map_of (add_item item c) k =
     (if k = Date (utc_date (timestamp item))
      then Some \<lparr>total = total (entry_or_zero c k) + event.count item,
                 unique = unique (entry_or_zero c k) + event.uniques item\<rparr>
      else map_of c k)"
proof (cases "map_of c (Date (utc_date (timestamp item)))")
  case None
  then show ?thesis
    by (simp add: add_item_def Let_def map_of_map_entry update_conv' entry_or_zero_def)
next
  case (Some r)
  then show ?thesis
    by (simp add: add_item_def Let_def map_of_map_entry entry_or_zero_def)
qed

lemma keys_add_item:
  "fst ` set (add_item item c) = insert (Date (utc_date (timestamp item))) (fst ` set c)"
  by (auto simp: add_item_def Let_def dom_map_entry dom_update map_of_eq_None_iff)

lemma distinct_add_item:
  "distinct (map fst c) \<Longrightarrow> distinct (map fst (add_item item c))"
  by (simp add: add_item_def Let_def distinct_map_entry distinct_update)

lemma distinct_fold_add_item:
  "distinct (map fst c) \<Longrightarrow> distinct (map fst (fold add_item data c))"
  by (induction data arbitrary: c) (simp_all add: distinct_add_item)

lemma map_of_fold_add_item_Timestamp:
  "map_of (fold add_item data c) (Timestamp d) = map_of c (Timestamp d)"
  by (induction data arbitrary: c) (simp_all add: map_of_add_item)

lemma map_of_fold_add_item:
  "map_of (fold add_item data c) (Date d) =
     (if events_on data d = [] then map_of c (Date d)
      else Some \<lparr>total = total (entry_or_zero c (Date d)) + total (day_counts data d),
                 unique = unique (entry_or_zero c (Date d)) + unique (day_counts data d)\<rparr>)"
proof (induction data arbitrary: c)
  case Nil
  then show ?case by (simp add: events_on_def)
next
  case (Cons item data)
  show ?case
  proof (cases "utc_date (timestamp item) = d")
    case True
    then show ?thesis
      by (simp add: Cons.IH map_of_add_item events_on_def day_counts_def entry_or_zero_def)
  next
    case False
    then show ?thesis
      by (simp add: Cons.IH map_of_add_item events_on_def day_counts_def entry_or_zero_def)
  qed
qed

lemma map_of_fill_date:
  "map_of (fill_date d c) k =
     (if k = Date d \<and> map_of c k = None then Some \<lparr>total = 0, unique = 0\<rparr> else map_of c k)"
  by (auto simp: fill_date_def update_conv')

lemma distinct_fill_date:
  "distinct (map fst c) \<Longrightarrow> distinct (map fst (fill_date d c))"
  by (simp add: fill_date_def distinct_update)

lemma distinct_fold_fill_date:
  "distinct (map fst c) \<Longrightarrow> distinct (map fst (fold fill_date ds c))"
  by (induction ds arbitrary: c) (simp_all add: distinct_fill_date)

lemma map_of_fold_fill_date:
  "map_of (fold fill_date ds c) k =
     (if k \<in> Date ` set ds \<and> map_of c k = None then Some \<lparr>total = 0, unique = 0\<rparr>
      else map_of c k)"
proof (induction ds arbitrary: c)
  case Nil
  then show ?case by simp
next
  case (Cons d ds)
  show ?case
    by (auto simp: Cons.IH map_of_fill_date)
qed

lemma distinct_get_counts: "distinct (map fst (get_counts data now))"
  by (simp add: get_counts_def Let_def distinct_fold_fill_date distinct_fold_add_item)

lemma map_of_get_counts_Timestamp: "map_of (get_counts data now) (Timestamp d) = None"
  by (auto simp: get_counts_def Let_def map_of_fold_fill_date map_of_fold_add_item_Timestamp)

lemma day_counts_no_events: "events_on data d = [] \<Longrightarrow> day_counts data d = \<lparr>total = 0, unique = 0\<rparr>"
  by (simp add: day_counts_def)

lemma map_of_get_counts:
  "map_of (get_counts data now) (Date d) =
     (if events_on data d = [] \<and> d \<notin> {utc_date now - 13..utc_date now} then None
      else Some (day_counts data d))"
  by (auto simp: get_counts_def Let_def map_of_fold_fill_date map_of_fold_add_item
      entry_or_zero_def day_counts_no_events)


lemma keys_get_counts:
  "fst ` set (get_counts data now) =
     Date ` ({d. events_on data d \<noteq> []} \<union> {utc_date now - 13..utc_date now})"
proof (rule set_eqI)
  fix k
  have "k \<in> fst ` set (get_counts data now) \<longleftrightarrow> map_of (get_counts data now) k \<noteq> None"
    by (simp add: map_of_eq_None_iff)
  then show "k \<in> fst ` set (get_counts data now) \<longleftrightarrow>
         k \<in> Date ` ({d. events_on data d \<noteq> []} \<union> {utc_date now - 13..utc_date now})"
    by (cases k) (auto simp: map_of_get_counts map_of_get_counts_Timestamp)
qed

lemma map_fst_from_dict: "map fst (from_dict data) = map to_datetime (map fst data)"
  by (simp add: from_dict_def case_prod_unfold)

lemma map_of_from_dict_Date:
  "fst ` set data \<subseteq> range Date \<Longrightarrow> map_of (from_dict data) d = map_of data (Date d)"
proof (induction data)
  case Nil
  then show ?case by (simp add: from_dict_def)
next
  case (Cons p data)
  obtain k r where p: "p = (k, r)" by (cases p)
  with Cons.prems obtain d' where k: "k = Date d'" by auto
  from Cons have "map_of (from_dict data) d = map_of data (Date d)" by simp
  then show ?case
    using p k by (simp add: from_dict_def)
qed

lemma distinct_from_dict_Date:
  assumes "fst ` set data \<subseteq> range Date" and "distinct (map fst data)"
  shows "distinct (map fst (from_dict data))"
proof -
  have "inj_on to_datetime (range Date)"
    by (auto simp: inj_on_def)
  then have "inj_on to_datetime (set (map fst data))"
    using assms(1) by (auto intro: inj_on_subset)
  then have "distinct (map to_datetime (map fst data))"
    by (subst distinct_map) (rule conjI [OF assms(2)])
  then show ?thesis
    by (simp only: map_fst_from_dict)
qed

lemma sorted_index_eq_upto:
  assumes "distinct (map fst df)" and "fst ` set df = {lo..hi}"
  shows "map fst (sort_index df) = [lo..hi]"
proof (rule sorted_distinct_set_unique)
  show "sorted (map fst (sort_index df))" by (simp add: sort_index_def)
  have "distinct (sort_key fst df)" using assms(1) by (simp add: distinct_map)
  show "distinct (map fst (sort_index df))"
    using assms(1) by (simp add: sort_index_def distinct_map)
  show "set (map fst (sort_index df)) = set [lo..hi]"
    using assms(2) by (simp add: sort_index_def)
qed simp_all

lemma map_of_sort_index:
  "distinct (map fst df) \<Longrightarrow> map_of (sort_index df) = map_of df"
  by (rule map_of_inject_set [THEN iffD2]) (simp_all add: sort_index_def distinct_map)

lemma last_14D_window:
  assumes "map fst df = [hi - 13..hi]"
  shows "last_14D df = df"
proof -
  have eq: "[hi - 13..hi] = (hi - 13) # [hi - 12..hi]"
    by (simp add: upto_rec1)
  from assms eq obtain p ps where df: "df = p # ps" and p: "fst p = hi - 13"
    by (cases df) auto
  have "map fst df \<noteq> []" using df by simp
  then have "fst (last df) = last (map fst df)"
    by (simp add: last_map df)
  also have "\<dots> = hi"
    by (simp add: assms upto_rec2)
  finally have "fst (last df) = hi" .
  then show ?thesis
    using p by (simp add: last_14D_def df case_prod_unfold)
qed


lemma keys_get_counts_window:
  assumes "\<forall>item \<in> set data. utc_date (timestamp item) \<in> {utc_date now - 13..utc_date now}"
  shows "fst ` set (from_dict (get_counts data now)) = {utc_date now - 13..utc_date now}"
proof -
  have sub: "{d. events_on data d \<noteq> []} \<subseteq> {utc_date now - 13..utc_date now}"
  proof
    fix d assume "d \<in> {d. events_on data d \<noteq> []}"
    then obtain item where "item \<in> set data" and "utc_date (timestamp item) = d"
      by (auto simp: events_on_def filter_empty_conv)
    with assms show "d \<in> {utc_date now - 13..utc_date now}" by auto
  qed
  have "fst ` set (from_dict (get_counts data now)) = to_datetime ` fst ` set (get_counts data now)"
    using map_fst_from_dict [of "get_counts data now"]
    by (metis list.set_map)
  also have "\<dots> = to_datetime ` Date ` {utc_date now - 13..utc_date now}"
    using sub by (simp add: keys_get_counts Un_absorb1)
  also have "\<dots> = {utc_date now - 13..utc_date now}"
    by (simp add: image_image)
  finally show ?thesis .
qed

subsection \<open>Lemmas on the cumulative table\<close>

lemma column_sum_Nil: "column_sum t [] = 0"
  by (cases t) (simp_all add: column_sum_def)

lemma wrap_int64_id:
  "is_int64 x \<Longrightarrow> (x + 2 ^ 63) mod 2 ^ 64 - 2 ^ 63 = x"
  by (simp add: is_int64_def)

lemma wrap_uint64_id: "is_uint64 x \<Longrightarrow> x mod 2 ^ 64 = x"
  by (simp add: is_uint64_def)

lemma column_sum_single:
  assumes "x \<in> set xs"
  shows "column_sum (column_dtype xs) [x] = x"
proof (cases "column_dtype xs")
  case Int64
  then have "list_all is_int64 xs"
    by (simp add: column_dtype_def split: if_splits)
  with assms have "is_int64 x"
    by (simp add: list_all_iff)
  then show ?thesis
    by (simp only: Int64 column_sum_def dtype.case sum_list.Cons sum_list.Nil add_0_right
        wrap_int64_id)
next
  case UInt64
  then have "list_all is_uint64 xs"
    by (simp add: column_dtype_def split: if_splits)
  with assms have "is_uint64 x"
    by (simp add: list_all_iff)
  then show ?thesis
    by (simp only: UInt64 column_sum_def dtype.case sum_list.Cons sum_list.Nil add_0_right
        wrap_uint64_id)
next
  case Object
  then show ?thesis
    by (simp add: column_sum_def)
qed

lemma column_sum_int64:
  "list_all is_int64 xs \<Longrightarrow>
   column_sum (column_dtype xs) ys = sint (word_of_int (sum_list ys) :: 64 word)"
  by (simp add: column_sum_def column_dtype_def int_word_sint)

lemma group_row_empty: "rows_at df d = [] \<Longrightarrow> group_row df d = \<lparr>total = 0, unique = 0\<rparr>"
  by (simp add: group_row_def column_sum_Nil)

lemma map_fst_groupby_sum: "map fst (groupby_sum df) = sort (remdups (map fst df))"
  by (simp add: groupby_sum_def Let_def comp_def)

lemma groupby_sum_empty_iff: "groupby_sum df = [] \<longleftrightarrow> df = []"
proof -
  have "groupby_sum df = [] \<longleftrightarrow> set (map fst (groupby_sum df)) = {}"
    by simp
  also have "\<dots> \<longleftrightarrow> df = []"
    by (simp only: map_fst_groupby_sum set_sort set_remdups) simp
  finally show ?thesis .
qed

lemma map_of_groupby_sum:
  "map_of (groupby_sum df) d = (if d \<in> fst ` set df then Some (group_row df d) else None)"
  by (simp add: groupby_sum_def Let_def group_row_def map_of_map_restrict restrict_map_def)

lemma rows_at_empty: "d \<notin> fst ` set df \<Longrightarrow> rows_at df d = []"
  by (force simp: rows_at_def filter_empty_conv)

lemma map_fst_reindex: "map fst (reindex df idx) = idx"
  by (simp add: reindex_def comp_def)

lemma map_of_reindex:
  "map_of (reindex df idx) d =
     (if d \<in> set idx
      then Some (case map_of df d of Some r \<Rightarrow> r | None \<Rightarrow> \<lparr>total = 0, unique = 0\<rparr>)
      else None)"
  by (simp add: reindex_def map_of_map_restrict restrict_map_def)

lemma set_fst_from_dict: "fst ` set (from_dict m) = to_datetime ` fst ` set m"
  by (force simp: from_dict_def)

text \<open>The rows of the table that lines 147 to 163 build from a dictionary.\<close>

lemma densify_nonempty:
  assumes "m \<noteq> []"
  shows "densify m =
    Inr \<lparr>tz = None,
         table_rows = reindex (groupby_sum (from_dict m)) [first_date m..last_date m]\<rparr>"
proof -
  have ne: "groupby_sum (from_dict m) \<noteq> []"
    using assms by (simp add: groupby_sum_empty_iff from_dict_def)
  have "set (map fst (groupby_sum (from_dict m))) = to_datetime ` fst ` set m"
    by (simp only: map_fst_groupby_sum set_sort set_remdups set_map set_fst_from_dict)
  then show ?thesis
    using ne by (simp add: densify_def Let_def date_range_def first_date_def last_date_def
        to_datetime_utc_def tz_convert_None_def)
qed

lemma densify_empty: "densify [] = Inl ValueError"
  by (simp add: densify_def from_dict_def groupby_sum_def to_datetime_utc_def)

lemma map_of_densified_row:
  assumes "d \<in> {first_date m..last_date m}"
  shows "map_of (reindex (groupby_sum (from_dict m)) [first_date m..last_date m]) d
           = Some (group_row (from_dict m) d)"
proof (cases "d \<in> fst ` set (from_dict m)")
  case True
  then show ?thesis
    using assms by (simp add: map_of_reindex map_of_groupby_sum)
next
  case False
  then show ?thesis
    using assms by (simp add: map_of_reindex map_of_groupby_sum rows_at_empty group_row_empty)
qed

lemma rows_at_distinct:
  "distinct (map fst df) \<Longrightarrow>
   rows_at df d = (case map_of df d of Some r \<Rightarrow> [r] | None \<Rightarrow> [])"
proof (induction df)
  case Nil
  then show ?case by (simp add: rows_at_def)
next
  case (Cons p df)
  obtain d' r where p: "p = (d', r)" by (cases p)
  show ?case
  proof (cases "d' = d")
    case True
    with Cons.prems p have "d \<notin> fst ` set df" by auto
    then have "rows_at df d = []" by (rule rows_at_empty)
    then show ?thesis
      using True p by (simp add: rows_at_def)
  next
    case False
    with Cons p show ?thesis by (simp add: rows_at_def)
  qed
qed

lemma rows_at_subset: "set (rows_at df d) \<subseteq> snd ` set df"
  by (auto simp: rows_at_def)

lemma group_row_single:
  assumes "rows_at df d = [r]"
  shows "group_row df d = r"
proof -
  have "r \<in> snd ` set df"
    using rows_at_subset [of df d] assms by simp
  then have t: "total r \<in> set (map (\<lambda>(d, r). total r) df)"
    and u: "unique r \<in> set (map (\<lambda>(d, r). unique r) df)"
    by force+
  show ?thesis
    by (simp add: group_row_def assms column_sum_single [OF t] column_sum_single [OF u])
qed

lemma group_row_distinct:
  "distinct (map fst df) \<Longrightarrow>
   group_row df d = (case map_of df d of Some r \<Rightarrow> r | None \<Rightarrow> \<lparr>total = 0, unique = 0\<rparr>)"
  by (auto simp: rows_at_distinct group_row_single group_row_empty split: option.splits)

lemma update_absent: "k \<notin> fst ` set al \<Longrightarrow> AList.update k v al = al @ [(k, v)]"
  by (induction al) auto

lemma fold_merge_step_disjoint:
  assumes "distinct (map fst new_data)" and "fst ` set old_data \<inter> fst ` set new_data = {}"
    and "new_data = pre @ ys"
  shows "fold (merge_step new_data) (map fst ys) (old_data @ pre) = old_data @ new_data"
  using assms(3)
proof (induction ys arbitrary: pre)
  case Nil
  then show ?case by simp
next
  case (Cons p ys)
  obtain k v where p: "p = (k, v)" by (cases p)
  have mem: "(k, v) \<in> set new_data"
    using Cons.prems p by simp
  then have new: "map_of new_data k = Some v"
    using assms(1) by simp
  have "k \<notin> fst ` set pre"
    using assms(1) Cons.prems p by auto
  moreover have "k \<notin> fst ` set old_data"
    using assms(2) mem by force
  ultimately have absent: "k \<notin> fst ` set (old_data @ pre)"
    by auto
  then have old: "map_of (old_data @ pre) k = None"
    by (metis map_of_eq_None_iff)
  have step: "merge_step new_data k (old_data @ pre) = old_data @ (pre @ [(k, v)])"
    unfolding merge_step_def new old by (simp add: update_absent [OF absent])
  have "new_data = (pre @ [(k, v)]) @ ys"
    using Cons.prems p by simp
  from Cons.IH [OF this] show ?case
    by (simp add: p step)
qed

lemma merge_dict_disjoint:
  assumes "distinct (map fst new_data)" and "fst ` set old_data \<inter> fst ` set new_data = {}"
  shows "merge_dict old_data new_data = old_data @ new_data"
  using fold_merge_step_disjoint [OF assms, of "[]" new_data]
  by (simp add: merge_dict_def)

lemma merge_dict_empty_old:
  "distinct (map fst new_data) \<Longrightarrow> merge_dict [] new_data = new_data"
  using merge_dict_disjoint [of new_data "[]"] by simp

lemma group_row_from_dict_Date:
  assumes "distinct (map fst data)" and "fst ` set data \<subseteq> range Date"
  shows "group_row (from_dict data) d = entry_or_zero data (Date d)"
  by (simp add: group_row_distinct [OF distinct_from_dict_Date [OF assms(2) assms(1)]]
      map_of_from_dict_Date [OF assms(2)] entry_or_zero_def)

lemma get_counts_nonempty: "get_counts data now \<noteq> []"
proof
  assume "get_counts data now = []"
  then have "fst ` set (get_counts data now) = {}" by simp
  then show False
    by (simp add: keys_get_counts)
qed

lemma get_counts_dates: "fst ` set (get_counts data now) \<subseteq> range Date"
  by (auto simp: keys_get_counts)

lemma to_dict_Nil: "to_dict [] = Some []"
  by (simp add: to_dict_def)

lemma from_dict_append: "from_dict (a @ b) = from_dict a @ from_dict b"
  by (simp add: from_dict_def)

lemma from_dict_Timestamp: "from_dict (map (\<lambda>(d, r). (Timestamp d, r)) csv) = csv"
  by (induction csv) (auto simp: from_dict_def)

lemma rows_at_append: "rows_at (a @ b) d = rows_at a d @ rows_at b d"
  by (simp add: rows_at_def)

lemma Timestamp_Date_disjoint:
  "A \<subseteq> range Timestamp \<Longrightarrow> B \<subseteq> range Date \<Longrightarrow> A \<inter> B = {}"
  by auto

lemma dates_of_keys:
  "to_datetime ` fst ` set m = {d. Timestamp d \<in> fst ` set m \<or> Date d \<in> fst ` set m}"
proof (rule set_eqI)
  fix d
  show "d \<in> to_datetime ` fst ` set m \<longleftrightarrow>
        d \<in> {d. Timestamp d \<in> fst ` set m \<or> Date d \<in> fst ` set m}"
  proof
    assume "d \<in> to_datetime ` fst ` set m"
    then obtain k where k: "k \<in> fst ` set m" and d: "d = to_datetime k"
      by blast
    then show "d \<in> {d. Timestamp d \<in> fst ` set m \<or> Date d \<in> fst ` set m}"
      by (cases k) simp_all
  next
    assume "d \<in> {d. Timestamp d \<in> fst ` set m \<or> Date d \<in> fst ` set m}"
    then have "Timestamp d \<in> fst ` set m \<or> Date d \<in> fst ` set m"
      by simp
    then show "d \<in> to_datetime ` fst ` set m"
    proof
      assume "Timestamp d \<in> fst ` set m"
      then have "to_datetime (Timestamp d) \<in> to_datetime ` fst ` set m"
        by (rule imageI)
      then show ?thesis by simp
    next
      assume "Date d \<in> fst ` set m"
      then have "to_datetime (Date d) \<in> to_datetime ` fst ` set m"
        by (rule imageI)
      then show ?thesis by simp
    qed
  qed
qed

lemma rows_at_from_dict:
  "map f (rows_at (from_dict m) d) = [f r. (k, r) \<leftarrow> m, k = Timestamp d \<or> k = Date d]"
proof (induction m)
  case Nil
  then show ?case by (simp add: rows_at_def from_dict_def)
next
  case (Cons p m)
  obtain k r where p: "p = (k, r)" by (cases p)
  from Cons.IH have ih: "map f (map snd (filter (\<lambda>(d', r). d' = d) (from_dict m))) =
      [f r. (k, r) \<leftarrow> m, k = Timestamp d \<or> k = Date d]"
    by (simp add: rows_at_def)
  show ?case
    using ih by (cases k) (auto simp: rows_at_def from_dict_def p)
qed

lemma list_all_from_dict:
  "list_all P (map (\<lambda>(d, r). f r) (from_dict m)) \<longleftrightarrow> (\<forall>(k, r) \<in> set m. P (f r))"
  by (auto simp: list_all_iff from_dict_def)

lemma sum_rows_at_distinct:
  "distinct (map fst df) \<Longrightarrow>
   sum_list (map f (rows_at df d)) = (case map_of df d of Some r \<Rightarrow> f r | None \<Rightarrow> 0)"
  by (simp add: rows_at_distinct split: option.splits)

text \<open>
  The merge with a readable table, for counts that fit in 64 bits: the row of every date of
  the result is the sum of the row of the old table and the row of the aggregate for that
  date, a missing row counting as zero.
\<close>

lemma cumulative_merge_adds:
  assumes "distinct (map fst csv)" and "distinct (map fst data)"
    and "fst ` set data \<subseteq> range Date" and "data \<noteq> []"
    and "\<forall>(d, r) \<in> set csv. is_int64 (total r) \<and> is_int64 (unique r)"
    and "\<forall>(k, r) \<in> set data. is_int64 (total r) \<and> is_int64 (unique r)"
  shows "\<exists>tbl. create_cumulative_dataframe data (Some csv) = Inr \<lparr>tz = None, table_rows = tbl\<rparr> \<and>
           (\<forall>d \<in> set (map fst tbl).
              map_of tbl d =
                Some \<lparr>total = sint (word_of_int
                         ((case map_of csv d of Some r \<Rightarrow> total r | None \<Rightarrow> 0) +
                          (case map_of data (Date d) of Some r \<Rightarrow> total r | None \<Rightarrow> 0)) :: 64 word),
                      unique = sint (word_of_int
                         ((case map_of csv d of Some r \<Rightarrow> unique r | None \<Rightarrow> 0) +
                          (case map_of data (Date d) of Some r \<Rightarrow> unique r | None \<Rightarrow> 0)) :: 64 word)\<rparr>)"
proof -
  let ?old = "map (\<lambda>(d, r). (Timestamp d, r)) csv"
  let ?m = "?old @ data"
  let ?tbl = "reindex (groupby_sum (from_dict ?m)) [first_date ?m..last_date ?m]"
  have old: "to_dict csv = Some ?old"
    using assms(1) by (simp add: to_dict_def)
  have "fst ` set ?old \<subseteq> range Timestamp"
    by auto
  then have "fst ` set ?old \<inter> fst ` set data = {}"
    using assms(3) by (rule Timestamp_Date_disjoint)
  then have merged: "merge_dict ?old data = ?m"
    by (rule merge_dict_disjoint [OF assms(2)])
  have ne: "?m \<noteq> []"
    using assms(4) by simp
  have run: "create_cumulative_dataframe data (Some csv) = Inr \<lparr>tz = None, table_rows = ?tbl\<rparr>"
    by (simp only: create_cumulative_dataframe_def old merged option.case densify_nonempty [OF ne])
  have df: "from_dict ?m = csv @ from_dict data"
    by (simp only: from_dict_append from_dict_Timestamp)
  have t64: "list_all is_int64 (map (\<lambda>(d, r). total r) (csv @ from_dict data))"
    and u64: "list_all is_int64 (map (\<lambda>(d, r). unique r) (csv @ from_dict data))"
    using assms(5,6) by (auto simp: list_all_iff from_dict_def)
  have dist: "distinct (map fst (from_dict data))"
    by (rule distinct_from_dict_Date [OF assms(3) assms(2)])
  have row: "group_row (from_dict ?m) d =
       \<lparr>total = sint (word_of_int
          ((case map_of csv d of Some r \<Rightarrow> total r | None \<Rightarrow> 0) +
           (case map_of data (Date d) of Some r \<Rightarrow> total r | None \<Rightarrow> 0)) :: 64 word),
        unique = sint (word_of_int
          ((case map_of csv d of Some r \<Rightarrow> unique r | None \<Rightarrow> 0) +
           (case map_of data (Date d) of Some r \<Rightarrow> unique r | None \<Rightarrow> 0)) :: 64 word)\<rparr>" for d
    unfolding df group_row_def column_sum_int64 [OF t64] column_sum_int64 [OF u64]
    by (simp only: rows_at_append map_append sum_list_append sum_rows_at_distinct [OF assms(1)]
        sum_rows_at_distinct [OF dist] map_of_from_dict_Date [OF assms(3)])
  have "map_of ?tbl d = Some (group_row (from_dict ?m) d)" if "d \<in> set (map fst ?tbl)" for d
  proof -
    have "d \<in> {first_date ?m..last_date ?m}"
      using that by (simp only: map_fst_reindex set_upto)
    then show ?thesis
      by (rule map_of_densified_row)
  qed
  then show ?thesis
    using run by (simp only: row) blast
qed

text \<open>
  Without a readable file the time-series reconciler returns what it returns for an old
  table without rows, and it returns a table whenever the aggregate is not empty.
\<close>

lemma first_run_time_series:
  "(distinct (map fst data) \<longrightarrow>
      create_cumulative_dataframe data None = create_cumulative_dataframe data (Some [])) \<and>
   (data \<noteq> [] \<longrightarrow> (\<exists>tbl. create_cumulative_dataframe data None = Inr tbl))"
  by (simp add: create_cumulative_dataframe_def to_dict_Nil merge_dict_empty_old densify_nonempty)

subsection \<open>Lemmas on the ranked lists\<close>

lemma filter_drop_duplicates_last:
  "filter (\<lambda>x. col x = k) (drop_duplicates_last col rs) =
     (if k \<in> set (map col rs) then [last (filter (\<lambda>x. col x = k) rs)] else [])"
proof (induction rs)
  case Nil
  then show ?case by simp
next
  case (Cons r rs)
  show ?case
  proof (cases "col r = k")
    case True
    show ?thesis
    proof (cases "k \<in> set (map col rs)")
      case True
      then have "filter (\<lambda>x. col x = k) rs \<noteq> []"
        by (auto simp: filter_empty_conv)
      with True \<open>col r = k\<close> Cons.IH show ?thesis by simp
    next
      case False
      then have "filter (\<lambda>x. col x = k) rs = []"
        by (auto simp: filter_empty_conv)
      with False \<open>col r = k\<close> Cons.IH show ?thesis by simp
    qed
  next
    case False
    with Cons.IH show ?thesis by simp
  qed
qed

lemma distinct_drop_duplicates_last: "distinct (map col (drop_duplicates_last col rs))"
proof (induction rs)
  case Nil
  then show ?case by simp
next
  case (Cons r rs)
  have sub: "set (drop_duplicates_last col xs) \<subseteq> set xs" for xs
    by (induction xs) auto
  show ?case
    using Cons.IH sub [of rs] by auto
qed

lemma filter_commute: "filter P (filter Q xs) = filter Q (filter P xs)"
  by (induction xs) simp_all

lemma filter_sort_desc:
  "filter P (rev (sort_key f (rev xs))) = rev (sort_key f (rev (filter P xs)))"
proof -
  have "filter P (rev (sort_key f (rev xs))) = rev (filter P (sort_key f (rev xs)))"
    by (rule rev_filter [symmetric])
  also have "\<dots> = rev (sort_key f (filter P (rev xs)))"
    by (simp only: filter_sort)
  also have "\<dots> = rev (sort_key f (rev (filter P xs)))"
    by (simp only: rev_filter)
  finally show ?thesis .
qed

lemma filter_rows_sort_values_count:
  "filter P (rows (sort_values_count df)) =
     rev (sort_key count_value (rev (filter (\<lambda>r. entry.count r \<noteq> None) (filter P (rows df)))))
     @ filter (\<lambda>r. entry.count r = None) (filter P (rows df))"
proof -
  have "filter P (rows (sort_values_count df)) =
          filter P (rev (sort_key count_value (rev (filter (\<lambda>r. entry.count r \<noteq> None) (rows df)))))
          @ filter P (filter (\<lambda>r. entry.count r = None) (rows df))"
    unfolding sort_values_count_def by (simp del: filter_filter)
  then show ?thesis
    by (simp only: filter_sort_desc filter_commute [of P])
qed

lemma filter_sort_values_single:
  assumes "filter P (rows df) = [y]"
  shows "filter P (rows (sort_values_count df)) = [y]"
  unfolding filter_rows_sort_values_count assms
  by (cases "entry.count y") simp_all

lemma rows_create_referral_dataframe:
  assumes "read_csv_index_col0 file = Some old_data"
  shows "rows (create_referral_dataframe data metric_type file) =
           rows (sort_values_count
             (drop_duplicates (subset_column metric_type)
               (pd_concat old_data (DataFrame data (ranked_columns metric_type)))))"
  by (simp add: create_referral_dataframe_def Let_def assms)

text \<open>
  On the merge path, where the prior file can be read, the merged table has exactly one row
  for each key of the new response: the last row of the response with that key.
\<close>

lemma referral_last_occurrence:
  assumes "read_csv_index_col0 file \<noteq> None"
    and "r \<in> set (rows (DataFrame data (ranked_columns metric_type)))"
  shows "filter (\<lambda>x. subset_column metric_type x = subset_column metric_type r)
           (rows (create_referral_dataframe data metric_type file)) =
         [last (filter (\<lambda>x. subset_column metric_type x = subset_column metric_type r)
                 (rows (DataFrame data (ranked_columns metric_type))))]"
proof -
  let ?col = "subset_column metric_type"
  let ?new = "rows (DataFrame data (ranked_columns metric_type))"
  from assms(1) obtain old_data where old: "read_csv_index_col0 file = Some old_data"
    by auto
  have ne: "filter (\<lambda>x. ?col x = ?col r) ?new \<noteq> []"
    using assms(2) by (auto simp: filter_empty_conv)
  let ?all = "rows old_data @ ?new"
  have mem: "?col r \<in> set (map ?col ?all)"
    using assms(2) by auto
  have "filter (\<lambda>x. ?col x = ?col r) (drop_duplicates_last ?col ?all) =
          [last (filter (\<lambda>x. ?col x = ?col r) ?all)]"
    using mem by (simp only: filter_drop_duplicates_last if_True)
  also have "last (filter (\<lambda>x. ?col x = ?col r) ?all) = last (filter (\<lambda>x. ?col x = ?col r) ?new)"
    using ne by simp
  finally have "filter (\<lambda>x. ?col x = ?col r)
       (rows (drop_duplicates ?col (pd_concat old_data (DataFrame data (ranked_columns metric_type)))))
       = [last (filter (\<lambda>x. ?col x = ?col r) ?new)]"
    by (simp add: drop_duplicates_def pd_concat_def)
  then show ?thesis
    unfolding rows_create_referral_dataframe [OF old]
    by (rule filter_sort_values_single)
qed

subsection \<open>Claims on \<open>_merge_dict\<close>\<close>

text \<open>
  On a key present in both of its dictionaries, \<open>_merge_dict\<close> keeps the old row exactly
  when the old total is at least the new total and the old unique count is at least the new
  one, and otherwise stores the whole new row; a key present only in the new dictionary gets
  the new row.
\<close>

lemma merge_dict_rule_on_keys:
  "(map_of old_data k = Some ov \<and> map_of new_data k = Some nv \<longrightarrow>
      map_of (merge_dict old_data new_data) k =
        Some (if total nv \<le> total ov \<and> unique nv \<le> unique ov then ov else nv)) \<and>
   (map_of old_data k = None \<and> map_of new_data k = Some nv \<longrightarrow>
      map_of (merge_dict old_data new_data) k = Some nv)"
  by (auto simp: map_of_merge_dict)

text \<open>
  Claim C9 (frame property of the merge). A key of the old dictionary that the new
  dictionary does not have keeps its row, both fields unchanged.
\<close>

theorem merge_dict_frame:
  assumes "map_of old_data k = Some ov" and "map_of new_data k = None"
  shows "map_of (merge_dict old_data new_data) k = Some ov"
  using assms by (simp add: map_of_merge_dict)

theorem merge_dict_frame_witness:
  "map_of (merge_dict [(1::nat, \<lparr>total = 10, unique = 8\<rparr>), (2, \<lparr>total = 4, unique = 4\<rparr>)]
                      [(1, \<lparr>total = 11, unique = 9\<rparr>)]) 2
     = Some \<lparr>total = 4, unique = 4\<rparr>"
  by (rule merge_dict_frame) simp_all

text \<open>
  Claim C1 (cumulative monotonicity), as stated: for a key present in both dictionaries
  neither field of the merged row is below the old one. This fails, since the whole new row
  is stored as soon as one of its fields is higher: with the old row (10, 8) and the new row
  (11, 3) the merged row is (11, 3), and the unique count has gone from 8 to 3.
\<close>

theorem merge_dict_monotone_counterexample:
  "map_of [(0::nat, \<lparr>total = 10, unique = 8\<rparr>)] 0 = Some \<lparr>total = 10, unique = 8\<rparr> \<and>
   map_of [(0::nat, \<lparr>total = 11, unique = 3\<rparr>)] 0 = Some \<lparr>total = 11, unique = 3\<rparr> \<and>
   map_of (merge_dict [(0::nat, \<lparr>total = 10, unique = 8\<rparr>)]
                      [(0, \<lparr>total = 11, unique = 3\<rparr>)]) 0
     = Some \<lparr>total = 11, unique = 3\<rparr> \<and>
   unique \<lparr>total = 11, unique = 3\<rparr> < unique \<lparr>total = 10, unique = 8\<rparr>"
  by (simp add: merge_dict_def merge_step_def)

text \<open>
  Claim C1, amended. For a key present in both dictionaries the merged row is the old row
  or the new row as a whole. A field of the merged row is below its old value only when the
  other field is strictly above its old value; and when the new row is field by field at
  least the old row, or field by field at most the old row, neither field decreases.
\<close>

theorem merge_dict_monotone_amended:
  assumes "map_of old_data k = Some ov" and "map_of new_data k = Some nv"
  shows "\<exists>mv. map_of (merge_dict old_data new_data) k = Some mv \<and>
           (mv = ov \<or> mv = nv) \<and>
           (total mv < total ov \<longrightarrow> unique ov < unique mv) \<and>
           (unique mv < unique ov \<longrightarrow> total ov < total mv) \<and>
           ((total ov \<le> total nv \<and> unique ov \<le> unique nv) \<or>
            (total nv \<le> total ov \<and> unique nv \<le> unique ov) \<longrightarrow>
              total ov \<le> total mv \<and> unique ov \<le> unique mv)"
  using assms by (auto simp: map_of_merge_dict)

theorem merge_dict_monotone_amended_witness:
  "\<exists>mv. map_of (merge_dict [(0::nat, \<lparr>total = 10, unique = 8\<rparr>)]
                           [(0, \<lparr>total = 11, unique = 3\<rparr>)]) 0 = Some mv \<and>
      (mv = \<lparr>total = 10, unique = 8\<rparr> \<or> mv = \<lparr>total = 11, unique = 3\<rparr>) \<and>
      (total mv < total \<lparr>total = 10, unique = 8\<rparr> \<longrightarrow>
         unique \<lparr>total = 10, unique = 8\<rparr> < unique mv) \<and>
      (unique mv < unique \<lparr>total = 10, unique = 8\<rparr> \<longrightarrow>
         total \<lparr>total = 10, unique = 8\<rparr> < total mv) \<and>
      ((total \<lparr>total = 10, unique = 8\<rparr> \<le> total \<lparr>total = 11, unique = 3\<rparr> \<and>
        unique \<lparr>total = 10, unique = 8\<rparr> \<le> unique \<lparr>total = 11, unique = 3\<rparr>) \<or>
       (total \<lparr>total = 11, unique = 3\<rparr> \<le> total \<lparr>total = 10, unique = 8\<rparr> \<and>
        unique \<lparr>total = 11, unique = 3\<rparr> \<le> unique \<lparr>total = 10, unique = 8\<rparr>) \<longrightarrow>
          total \<lparr>total = 10, unique = 8\<rparr> \<le> total mv \<and>
          unique \<lparr>total = 10, unique = 8\<rparr> \<le> unique mv)"
  by (rule merge_dict_monotone_amended) simp_all

subsection \<open>Claims on the snapshot\<close>

text \<open>
  Claim C3 (snapshot densification). When the UTC date of every event lies in the 14 days
  that end today, the snapshot table has exactly 14 rows, one per date from today minus 13
  to today in ascending order; the row of a date holds the sums of the \<open>count\<close> and
  \<open>uniques\<close> fields of its events, and a date without events has total 0 and unique 0.
\<close>

theorem snapshot_densification:
  assumes "\<forall>item \<in> set data. utc_date (timestamp item) \<in> {utc_date now - 13..utc_date now}"
  shows "map fst (create_snapshot_dataframe (get_counts data now)) = [utc_date now - 13..utc_date now] \<and>
         length (create_snapshot_dataframe (get_counts data now)) = 14 \<and>
         (\<forall>d \<in> {utc_date now - 13..utc_date now}.
            map_of (create_snapshot_dataframe (get_counts data now)) d = Some (day_counts data d) \<and>
            (events_on data d = [] \<longrightarrow>
               map_of (create_snapshot_dataframe (get_counts data now)) d
                 = Some \<lparr>total = 0, unique = 0\<rparr>))"
proof -
  let ?c = "get_counts data now"
  let ?df = "from_dict ?c"
  have dates: "fst ` set ?c \<subseteq> range Date"
    by (auto simp: keys_get_counts)
  have dist: "distinct (map fst ?df)"
    by (rule distinct_from_dict_Date [OF dates distinct_get_counts])
  have idx: "map fst (sort_index ?df) = [utc_date now - 13..utc_date now]"
    by (rule sorted_index_eq_upto [OF dist keys_get_counts_window [OF assms]])
  have snap: "create_snapshot_dataframe ?c = sort_index ?df"
    by (simp add: create_snapshot_dataframe_def last_14D_window [OF idx])
  have len: "length (sort_index ?df) = 14"
    using arg_cong [OF idx, of length] by simp
  have row: "map_of (sort_index ?df) d = Some (day_counts data d)"
    if "d \<in> {utc_date now - 13..utc_date now}" for d
    using that by (simp add: map_of_sort_index [OF dist] map_of_from_dict_Date [OF dates]
        map_of_get_counts)
  have zero: "map_of (sort_index ?df) d = Some \<lparr>total = 0, unique = 0\<rparr>"
    if "d \<in> {utc_date now - 13..utc_date now}" and "events_on data d = []" for d
    using row [OF that(1)] that(2) by (simp only: day_counts_no_events)
  show ?thesis
    unfolding snap using idx len row zero by blast
qed

theorem snapshot_densification_witness:
  "map fst (create_snapshot_dataframe (get_counts
       [\<lparr>timestamp = 1704067200, count = 10, uniques = 8\<rparr>,
        \<lparr>timestamp = 1704153600, count = 5, uniques = 3\<rparr>] 1704157200))
     = [utc_date 1704157200 - 13..utc_date 1704157200] \<and>
   length (create_snapshot_dataframe (get_counts
       [\<lparr>timestamp = 1704067200, count = 10, uniques = 8\<rparr>,
        \<lparr>timestamp = 1704153600, count = 5, uniques = 3\<rparr>] 1704157200)) = 14 \<and>
   map_of (create_snapshot_dataframe (get_counts
       [\<lparr>timestamp = 1704067200, count = 10, uniques = 8\<rparr>,
        \<lparr>timestamp = 1704153600, count = 5, uniques = 3\<rparr>] 1704157200)) 19723
     = Some \<lparr>total = 10, unique = 8\<rparr> \<and>
   map_of (create_snapshot_dataframe (get_counts
       [\<lparr>timestamp = 1704067200, count = 10, uniques = 8\<rparr>,
        \<lparr>timestamp = 1704153600, count = 5, uniques = 3\<rparr>] 1704157200)) 19720
     = Some \<lparr>total = 0, unique = 0\<rparr>"
proof -
  let ?data = "[\<lparr>timestamp = 1704067200, count = 10, uniques = 8\<rparr>,
                \<lparr>timestamp = 1704153600, count = 5, uniques = 3\<rparr>]"
  have h: "\<forall>item \<in> set ?data.
             utc_date (timestamp item) \<in> {utc_date 1704157200 - 13..utc_date 1704157200}"
    by (simp add: utc_date_def)
  have a: "(19723::int) \<in> {utc_date 1704157200 - 13..utc_date 1704157200}"
    and b: "(19720::int) \<in> {utc_date 1704157200 - 13..utc_date 1704157200}"
    by (simp_all add: utc_date_def)
  have c: "day_counts ?data 19723 = \<lparr>total = 10, unique = 8\<rparr>"
    and d: "events_on ?data 19720 = []"
    by (simp_all add: day_counts_def events_on_def utc_date_def)
  from snapshot_densification [OF h] a b c d show ?thesis
    by metis
qed

subsection \<open>Claims on the cumulative table\<close>

text \<open>
  Claim C7 (normalization after the merge), as stated: the rows of one date are combined by
  summing their fields. The columns of the frame are 64-bit integers, and their sum wraps
  around: the totals 9223372036854775807 and 1 of one date give -9223372036854775808. On an
  empty dictionary there is no table: \<open>date_range\<close> raises.
\<close>

theorem densify_sum_counterexample:
  "densify [(Timestamp 0, \<lparr>total = 9223372036854775807, unique = 1\<rparr>),
            (Date 0, \<lparr>total = 1, unique = 1\<rparr>)]
     = Inr \<lparr>tz = None, table_rows = [(0, \<lparr>total = - 9223372036854775808, unique = 2\<rparr>)]\<rparr> \<and>
   (9223372036854775807 :: int) + 1 \<noteq> - 9223372036854775808 \<and>
   densify [] = Inl ValueError"
  by code_simp

text \<open>
  Claim C7, amended. For every merged dictionary that is not empty and whose counts fit in
  signed 64-bit integers, the table built from it has a naive index (no time zone) and one
  row per calendar date from the first to the last date of the dictionary, in ascending
  order; the row of a date holds, for each field, the sum in signed 64-bit arithmetic of
  that field over all the entries whose key is that date, as a \<open>Timestamp\<close> or as a
  \<open>date\<close>; and a date that no key has gets total 0 and unique 0.
\<close>

theorem densify_normalization:
  assumes "merged \<noteq> []"
    and "\<forall>(k, r) \<in> set merged.
           - (2 ^ 63) \<le> total r \<and> total r < 2 ^ 63 \<and> - (2 ^ 63) \<le> unique r \<and> unique r < 2 ^ 63"
  shows "\<exists>tbl. densify merged = Inr \<lparr>tz = None, table_rows = tbl\<rparr> \<and>
           map fst tbl =
             [Min {d. Timestamp d \<in> fst ` set merged \<or> Date d \<in> fst ` set merged}..
              Max {d. Timestamp d \<in> fst ` set merged \<or> Date d \<in> fst ` set merged}] \<and>
           (\<forall>d \<in> set (map fst tbl).
              map_of tbl d =
                Some \<lparr>total = sint (word_of_int (sum_list
                         [total r. (k, r) \<leftarrow> merged, k = Timestamp d \<or> k = Date d]) :: 64 word),
                      unique = sint (word_of_int (sum_list
                         [unique r. (k, r) \<leftarrow> merged, k = Timestamp d \<or> k = Date d]) :: 64 word)\<rparr> \<and>
              (Timestamp d \<notin> fst ` set merged \<and> Date d \<notin> fst ` set merged \<longrightarrow>
                 map_of tbl d = Some \<lparr>total = 0, unique = 0\<rparr>))"
proof -
  let ?df = "from_dict merged"
  let ?tbl = "reindex (groupby_sum ?df) [first_date merged..last_date merged]"
  have t64: "list_all is_int64 (map (\<lambda>(d, r). total r) ?df)"
    and u64: "list_all is_int64 (map (\<lambda>(d, r). unique r) ?df)"
    using assms(2) by (auto simp: list_all_from_dict is_int64_def)
  have run: "densify merged = Inr \<lparr>tz = None, table_rows = ?tbl\<rparr>"
    by (rule densify_nonempty [OF assms(1)])
  have idx: "map fst ?tbl =
      [Min {d. Timestamp d \<in> fst ` set merged \<or> Date d \<in> fst ` set merged}..
       Max {d. Timestamp d \<in> fst ` set merged \<or> Date d \<in> fst ` set merged}]"
    by (simp only: map_fst_reindex first_date_def last_date_def dates_of_keys)
  have row: "map_of ?tbl d =
      Some \<lparr>total = sint (word_of_int (sum_list
               [total r. (k, r) \<leftarrow> merged, k = Timestamp d \<or> k = Date d]) :: 64 word),
            unique = sint (word_of_int (sum_list
               [unique r. (k, r) \<leftarrow> merged, k = Timestamp d \<or> k = Date d]) :: 64 word)\<rparr>"
    if "d \<in> set (map fst ?tbl)" for d
  proof -
    have "d \<in> {first_date merged..last_date merged}"
      using that by (simp only: map_fst_reindex set_upto)
    from map_of_densified_row [OF this] show ?thesis
      by (simp only: group_row_def column_sum_int64 [OF t64] column_sum_int64 [OF u64]
          rows_at_from_dict)
  qed
  have zero: "map_of ?tbl d = Some \<lparr>total = 0, unique = 0\<rparr>"
    if "d \<in> set (map fst ?tbl)"
      and "Timestamp d \<notin> fst ` set merged \<and> Date d \<notin> fst ` set merged" for d
  proof -
    have "d \<in> {first_date merged..last_date merged}"
      using that(1) by (simp only: map_fst_reindex set_upto)
    moreover have "d \<notin> fst ` set ?df"
      using that(2) by (simp add: set_fst_from_dict dates_of_keys)
    ultimately show ?thesis
      using map_of_densified_row [of d merged] by (simp add: rows_at_empty group_row_empty)
  qed
  show ?thesis
    using run idx row zero by blast
qed

theorem densify_normalization_witness:
  "densify [(Timestamp 3, \<lparr>total = 10, unique = 8\<rparr>), (Date 3, \<lparr>total = 1, unique = 1\<rparr>),
            (Date 5, \<lparr>total = 2, unique = 2\<rparr>)]
     = Inr \<lparr>tz = None,
            table_rows = [(3, \<lparr>total = 11, unique = 9\<rparr>), (4, \<lparr>total = 0, unique = 0\<rparr>),
                          (5, \<lparr>total = 2, unique = 2\<rparr>)]\<rparr>"
proof -
  let ?m = "[(Timestamp 3, \<lparr>total = 10, unique = 8\<rparr>), (Date 3, \<lparr>total = 1, unique = 1\<rparr>),
             (Date 5, \<lparr>total = 2, unique = 2\<rparr>)]"
  have ne: "?m \<noteq> []" by simp
  have bounds: "\<forall>(k, r) \<in> set ?m.
      - (2 ^ 63) \<le> total r \<and> total r < 2 ^ 63 \<and> - (2 ^ 63) \<le> unique r \<and> unique r < 2 ^ 63"
    by simp
  have dates: "{d. Timestamp d \<in> fst ` set ?m \<or> Date d \<in> fst ` set ?m} = {3, 5}"
    by auto
  have range: "[Min {3, 5}..Max {3, 5 :: int}] = [3, 4, 5]"
    by (simp add: upto_rec1)
  let ?row = "\<lambda>d. \<lparr>total = sint (word_of_int (sum_list
                  [total r. (k, r) \<leftarrow> ?m, k = Timestamp d \<or> k = Date d]) :: 64 word),
               unique = sint (word_of_int (sum_list
                  [unique r. (k, r) \<leftarrow> ?m, k = Timestamp d \<or> k = Date d]) :: 64 word)\<rparr>"
  let ?P = "\<lambda>tbl. densify ?m = Inr \<lparr>tz = None, table_rows = tbl\<rparr> \<and>
      map fst tbl = [3, 4, 5] \<and>
      (\<forall>d \<in> set (map fst tbl).
         map_of tbl d = Some (?row d) \<and>
         (Timestamp d \<notin> fst ` set ?m \<and> Date d \<notin> fst ` set ?m \<longrightarrow>
            map_of tbl d = Some \<lparr>total = 0, unique = 0\<rparr>))"
  have "\<exists>tbl. ?P tbl"
    using densify_normalization [OF ne bounds] unfolding dates range .
  then obtain tbl where all: "?P tbl" ..
  from all have run: "densify ?m = Inr \<lparr>tz = None, table_rows = tbl\<rparr>"
    and idx: "map fst tbl = [3, 4, 5]"
    by (rule conjunct1, rule conjunct2 [THEN conjunct1])
  from all have row: "map_of tbl d = Some (?row d)" if "d \<in> set (map fst tbl)" for d
    using that by blast
  from idx obtain a b c where tbl: "tbl = [(3, a), (4, b), (5, c)]"
    by (auto simp: map_eq_Cons_conv)
  have "map_of tbl 3 = Some \<lparr>total = 11, unique = 9\<rparr>"
    using row [of 3] by (simp add: idx)
  moreover have "map_of tbl 4 = Some \<lparr>total = 0, unique = 0\<rparr>"
    using row [of 4] by (simp add: idx)
  moreover have "map_of tbl 5 = Some \<lparr>total = 2, unique = 2\<rparr>"
    using row [of 5] by (simp add: idx)
  ultimately have "tbl = [(3, \<lparr>total = 11, unique = 9\<rparr>), (4, \<lparr>total = 0, unique = 0\<rparr>),
                          (5, \<lparr>total = 2, unique = 2\<rparr>)]"
    by (simp add: tbl)
  with run show ?thesis by simp
qed

text \<open>
  Claim C6 (sparse first run), as stated: without a readable prior file the cumulative table
  is the aggregate of the run as it is, with no zero rows added. This fails: lines 147 to
  163 run after the \<open>except\<close> branch as well. With one event on day 0 and the clock on
  day 15, the aggregate has day 0 and days 2 to 15, and the table has a zero row for day 1.
\<close>

theorem first_run_sparse_counterexample:
  "map_of (get_counts [\<lparr>timestamp = 0, count = 10, uniques = 8\<rparr>] 1296000) (Date 1) = None \<and>
   create_cumulative_dataframe (get_counts [\<lparr>timestamp = 0, count = 10, uniques = 8\<rparr>] 1296000) None
     = Inr \<lparr>tz = None,
            table_rows =
              [(0, \<lparr>total = 10, unique = 8\<rparr>), (1, \<lparr>total = 0, unique = 0\<rparr>),
               (2, \<lparr>total = 0, unique = 0\<rparr>), (3, \<lparr>total = 0, unique = 0\<rparr>),
               (4, \<lparr>total = 0, unique = 0\<rparr>), (5, \<lparr>total = 0, unique = 0\<rparr>),
               (6, \<lparr>total = 0, unique = 0\<rparr>), (7, \<lparr>total = 0, unique = 0\<rparr>),
               (8, \<lparr>total = 0, unique = 0\<rparr>), (9, \<lparr>total = 0, unique = 0\<rparr>),
               (10, \<lparr>total = 0, unique = 0\<rparr>), (11, \<lparr>total = 0, unique = 0\<rparr>),
               (12, \<lparr>total = 0, unique = 0\<rparr>), (13, \<lparr>total = 0, unique = 0\<rparr>),
               (14, \<lparr>total = 0, unique = 0\<rparr>), (15, \<lparr>total = 0, unique = 0\<rparr>)]\<rparr>"
  by code_simp

text \<open>
  Claim C6, amended. Without a readable prior file, the cumulative table holds every
  calendar date from the first to the last date of the aggregate of the run, in ascending
  order; a date of the aggregate keeps the row of the aggregate, and a date between them
  that the aggregate lacks gets total 0 and unique 0. The hypotheses say that the aggregate
  is a dictionary keyed by dates, as \<open>_get_counts\<close> returns it.
\<close>

theorem first_run_cumulative:
  assumes "data \<noteq> []" and "distinct (map fst data)" and "fst ` set data \<subseteq> range Date"
  shows "\<exists>tbl. create_cumulative_dataframe data None = Inr \<lparr>tz = None, table_rows = tbl\<rparr> \<and>
           map fst tbl = [first_date data..last_date data] \<and>
           (\<forall>d \<in> {first_date data..last_date data}.
              map_of tbl d = Some (entry_or_zero data (Date d)))"
proof -
  let ?tbl = "reindex (groupby_sum (from_dict data)) [first_date data..last_date data]"
  have run: "create_cumulative_dataframe data None = Inr \<lparr>tz = None, table_rows = ?tbl\<rparr>"
    by (simp add: create_cumulative_dataframe_def densify_nonempty [OF assms(1)])
  have row: "map_of ?tbl d = Some (entry_or_zero data (Date d))"
    if "d \<in> {first_date data..last_date data}" for d
    using map_of_densified_row [OF that] by (simp only: group_row_from_dict_Date [OF assms(2,3)])
  show ?thesis
    using run map_fst_reindex row by blast
qed

theorem first_run_cumulative_witness:
  "\<exists>tbl. create_cumulative_dataframe
            (get_counts [\<lparr>timestamp = 0, count = 10, uniques = 8\<rparr>] 1296000) None
           = Inr \<lparr>tz = None, table_rows = tbl\<rparr> \<and>
         map fst tbl = [first_date (get_counts [\<lparr>timestamp = 0, count = 10, uniques = 8\<rparr>] 1296000)..
                        last_date (get_counts [\<lparr>timestamp = 0, count = 10, uniques = 8\<rparr>] 1296000)] \<and>
         (\<forall>d \<in> {first_date (get_counts [\<lparr>timestamp = 0, count = 10, uniques = 8\<rparr>] 1296000)..
                  last_date (get_counts [\<lparr>timestamp = 0, count = 10, uniques = 8\<rparr>] 1296000)}.
            map_of tbl d =
              Some (entry_or_zero (get_counts [\<lparr>timestamp = 0, count = 10, uniques = 8\<rparr>] 1296000)
                      (Date d)))"
  by (rule first_run_cumulative [OF get_counts_nonempty distinct_get_counts get_counts_dates])

text \<open>
  Claim C8 (idempotence of the merge). The claim is that merging an aggregate into the
  table and then merging the same aggregate into the result changes nothing. The keys of
  the old table are \<open>Timestamp\<close> objects and the keys of the aggregate are \<open>date\<close>
  objects, so \<open>_merge_dict\<close> never finds a key of the aggregate in the old table: it
  adds every one of them, and \<open>groupby(...).sum()\<close> then adds the old and the new row
  of a date. With one event of 10 views and 8 visitors on 2024-01-02 (day 19724) and a
  table that holds (10, 8) for that day, the merge gives (20, 16), and the same merge into
  that result gives (30, 24).
\<close>

theorem cumulative_repeated_merge_example:
  "create_cumulative_dataframe
     (get_counts [\<lparr>timestamp = 1704153600, count = 10, uniques = 8\<rparr>] 1704157200)
     (Some (map (\<lambda>d. (d, \<lparr>total = 0, unique = 0\<rparr>)) [19711..19723]
            @ [(19724, \<lparr>total = 10, unique = 8\<rparr>)]))
   = Inr \<lparr>tz = None,
          table_rows = map (\<lambda>d. (d, \<lparr>total = 0, unique = 0\<rparr>)) [19711..19723]
                       @ [(19724, \<lparr>total = 20, unique = 16\<rparr>)]\<rparr> \<and>
   create_cumulative_dataframe
     (get_counts [\<lparr>timestamp = 1704153600, count = 10, uniques = 8\<rparr>] 1704157200)
     (Some (map (\<lambda>d. (d, \<lparr>total = 0, unique = 0\<rparr>)) [19711..19723]
            @ [(19724, \<lparr>total = 20, unique = 16\<rparr>)]))
   = Inr \<lparr>tz = None,
          table_rows = map (\<lambda>d. (d, \<lparr>total = 0, unique = 0\<rparr>)) [19711..19723]
                       @ [(19724, \<lparr>total = 30, unique = 24\<rparr>)]\<rparr>"
  by code_simp

text \<open>
  Claim C2 (conflict rule of the time-series merge). The claim is that for a date present in
  both the old cumulative table and the new aggregate the merge keeps the old row when both
  its fields are at least the new ones, and otherwise replaces it with the new row.
  \<open>_merge_dict\<close> does this for a key that both dictionaries have
  (\<open>merge_dict_rule_on_keys\<close>), but the keys of the old table are \<open>Timestamp\<close> objects and
  the keys of the aggregate are \<open>date\<close> objects, so no date of the two tables meets as one
  key, and the rows of the date are added. With one event of 9 views and 8 visitors on
  2024-01-02 (day 19724) and a table that holds (10, 8) for that day, the old row is field
  by field at least the new one, and the merge gives (19, 16) instead of (10, 8).
\<close>

theorem cumulative_conflict_example:
  "create_cumulative_dataframe
     (get_counts [\<lparr>timestamp = 1704153600, count = 9, uniques = 8\<rparr>] 1704157200)
     (Some (map (\<lambda>d. (d, \<lparr>total = 0, unique = 0\<rparr>)) [19711..19723]
            @ [(19724, \<lparr>total = 10, unique = 8\<rparr>)]))
   = Inr \<lparr>tz = None,
          table_rows = map (\<lambda>d. (d, \<lparr>total = 0, unique = 0\<rparr>)) [19711..19723]
                       @ [(19724, \<lparr>total = 19, unique = 16\<rparr>)]\<rparr>"
  by code_simp

subsection \<open>Claims on the first run\<close>

text \<open>
  Claim C5 (first-run fallback). The claim is that without a readable prior file each
  reconciler returns what it returns on an empty history. The time-series reconciler does
  (\<open>first_run_time_series\<close>). The ranked reconciler does not: its \<open>except\<close> branch
  returns the response as received, without the \<open>drop_duplicates\<close> and \<open>sort_values\<close>
  of the merge path. The response with \<open>a\<close> (count 1) before \<open>b\<close> (count 2) gives the
  rows \<open>a\<close>, \<open>b\<close> without a file, and the rows \<open>b\<close>, \<open>a\<close> with a file that has the
  header and no row.
\<close>

theorem first_run_ranked_example:
  "create_referral_dataframe
     [\<lparr>referrer = Some ''a'', path = None, title = None, count = Some 1, uniques = Some 1\<rparr>,
      \<lparr>referrer = Some ''b'', path = None, title = None, count = Some 2, uniques = Some 2\<rparr>]
     ''referral_sources'' None
   = \<lparr>columns = [''referrer'', ''count'', ''uniques''],
      rows = [\<lparr>referrer = Some ''a'', path = None, title = None, count = Some 1, uniques = Some 1\<rparr>,
              \<lparr>referrer = Some ''b'', path = None, title = None, count = Some 2, uniques = Some 2\<rparr>]\<rparr> \<and>
   create_referral_dataframe
     [\<lparr>referrer = Some ''a'', path = None, title = None, count = Some 1, uniques = Some 1\<rparr>,
      \<lparr>referrer = Some ''b'', path = None, title = None, count = Some 2, uniques = Some 2\<rparr>]
     ''referral_sources'' (Some \<lparr>columns = [''referrer'', ''count'', ''uniques''], rows = []\<rparr>)
   = \<lparr>columns = [''count'', ''uniques'', ''referrer''],
      rows = [\<lparr>referrer = Some ''b'', path = None, title = None, count = Some 2, uniques = Some 2\<rparr>,
              \<lparr>referrer = Some ''a'', path = None, title = None, count = Some 1, uniques = Some 1\<rparr>]\<rparr> \<and>
   rows (create_referral_dataframe
     [\<lparr>referrer = Some ''a'', path = None, title = None, count = Some 1, uniques = Some 1\<rparr>,
      \<lparr>referrer = Some ''b'', path = None, title = None, count = Some 2, uniques = Some 2\<rparr>]
     ''referral_sources'' None)
   \<noteq> rows (create_referral_dataframe
     [\<lparr>referrer = Some ''a'', path = None, title = None, count = Some 1, uniques = Some 1\<rparr>,
      \<lparr>referrer = Some ''b'', path = None, title = None, count = Some 2, uniques = Some 2\<rparr>]
     ''referral_sources'' (Some \<lparr>columns = [''referrer'', ''count'', ''uniques''], rows = []\<rparr>))"
  by code_simp

text \<open>
  Claim C10 (duplicates inside one response). The claim is that of several rows of one
  response with the same key the cumulative table keeps the last one. The merge path does
  (\<open>referral_last_occurrence\<close>). Without a readable prior file the \<open>except\<close> branch
  returns the response as received, and both rows of the key stay in the table, where the
  merge with a file that has the header and no row keeps the last one only.
\<close>

theorem first_run_duplicates_example:
  "create_referral_dataframe
     [\<lparr>referrer = Some ''google'', path = None, title = None, count = Some 10, uniques = Some 4\<rparr>,
      \<lparr>referrer = Some ''google'', path = None, title = None, count = Some 12, uniques = Some 6\<rparr>]
     ''referral_sources'' None
   = \<lparr>columns = [''referrer'', ''count'', ''uniques''],
      rows = [\<lparr>referrer = Some ''google'', path = None, title = None,
               count = Some 10, uniques = Some 4\<rparr>,
              \<lparr>referrer = Some ''google'', path = None, title = None,
               count = Some 12, uniques = Some 6\<rparr>]\<rparr> \<and>
   create_referral_dataframe
     [\<lparr>referrer = Some ''google'', path = None, title = None, count = Some 10, uniques = Some 4\<rparr>,
      \<lparr>referrer = Some ''google'', path = None, title = None, count = Some 12, uniques = Some 6\<rparr>]
     ''referral_sources'' (Some \<lparr>columns = [''referrer'', ''count'', ''uniques''], rows = []\<rparr>)
   = \<lparr>columns = [''count'', ''uniques'', ''referrer''],
      rows = [\<lparr>referrer = Some ''google'', path = None, title = None,
               count = Some 12, uniques = Some 6\<rparr>]\<rparr>"
  by code_simp

subsection \<open>Claims on the ranked lists\<close>

text \<open>
  Claim C4 (merge of the ranked lists). The claim is that the merged table has one row per
  key and that a new row replaces the prior row of its key. The first run writes the file
  with the columns \<open>referrer\<close>, \<open>count\<close>, \<open>uniques\<close> and no index column; the next
  run reads it with \<open>index_col=0\<close> and drops that index, which is the column
  \<open>referrer\<close>. The prior rows have no key any more: the prior row of a referrer is not
  replaced by the new row of that referrer, it stays in the table without its key.
\<close>

theorem referral_key_lost_example:
  "create_referral_dataframe
     [\<lparr>referrer = Some ''google'', path = None, title = None, count = Some 5, uniques = Some 3\<rparr>]
     ''referral_sources'' None
   = \<lparr>columns = [''referrer'', ''count'', ''uniques''],
      rows = [\<lparr>referrer = Some ''google'', path = None, title = None,
               count = Some 5, uniques = Some 3\<rparr>]\<rparr> \<and>
   create_referral_dataframe
     [\<lparr>referrer = Some ''google'', path = None, title = None, count = Some 10, uniques = Some 4\<rparr>]
     ''referral_sources''
     (Some \<lparr>columns = [''referrer'', ''count'', ''uniques''],
            rows = [\<lparr>referrer = Some ''google'', path = None, title = None,
                     count = Some 5, uniques = Some 3\<rparr>]\<rparr>)
   = \<lparr>columns = [''count'', ''uniques'', ''referrer''],
      rows = [\<lparr>referrer = Some ''google'', path = None, title = None,
               count = Some 10, uniques = Some 4\<rparr>,
              \<lparr>referrer = None, path = None, title = None,
               count = Some 5, uniques = Some 3\<rparr>]\<rparr>"
  by code_simp

end
